theory Spec2Isabelle
  imports Main "HOL-Library.Word"
begin

unbundle bit_operations_syntax

section \<open>Bytes, scalars and their memory image\<close>

text \<open>
  The archive copies the memory of a value to the file (\<open>reinterpret_cast<char*>(&val)\<close>,
  \<open>sizeof(val)\<close>). A \<open>char\<close> is a byte; \<open>int\<close> and \<open>unsigned int\<close> are 32 bits wide and
  share one representation, an \<open>int\<close> being read through \<open>sint\<close> and an \<open>unsigned int\<close>
  through \<open>unat\<close>. The memory image of a scalar is its bytes, lowest byte first.
\<close>

type_synonym byte = "8 word"
type_synonym u32 = "32 word"
type_synonym i32 = "32 word"

definition mem_of_u32 :: "u32 \<Rightarrow> byte list" where
  "mem_of_u32 w = [ucast w, ucast (drop_bit 8 w), ucast (drop_bit 16 w), ucast (drop_bit 24 w)]"

fun u32_of_mem :: "byte list \<Rightarrow> u32" where
  "u32_of_mem [] = 0"
| "u32_of_mem (b # bs) = ucast b OR push_bit 8 (u32_of_mem bs)"

section \<open>The file system and \<open>std::fstream\<close>\<close>

text \<open>
  A file system maps a path to the bytes of the file there. Opening a file for input
  succeeds when the file exists; opening one for output succeeds where the file system
  lets the path be created or overwritten, and leaves the file empty.
\<close>

record filesystem =
  files :: "string \<rightharpoonup> byte list"
  writable :: "string \<Rightarrow> bool"

datatype openmode = In | Out

text \<open>
  The state of a \<open>std::fstream\<close>: whether a file is open behind it, its error state
  (\<open>fail()\<close>: failbit or badbit; \<open>operator bool\<close> is its negation), the bytes of the file not
  yet extracted, the bytes inserted so far (the code never seeks), and how many times
  the member function \<open>close()\<close> has been called on it. The medium itself does not fail:
  what is inserted into an open file reaches the file when it is closed.
\<close>

record fstream =
  fname :: string
  openmode :: openmode
  is_open :: bool
  failed :: bool
  get_area :: "byte list"
  put_area :: "byte list"
  close_calls :: nat

definition fstream_open :: "string \<Rightarrow> openmode \<Rightarrow> filesystem \<Rightarrow> fstream \<times> filesystem" where
  "fstream_open p m fs =
     (let closed = \<lparr>fname = p, openmode = m, is_open = False, failed = True,
                     get_area = [], put_area = [], close_calls = 0\<rparr>
      in case m of
           In \<Rightarrow> (case files fs p of
                    None \<Rightarrow> (closed, fs)
                  | Some bs \<Rightarrow> (closed\<lparr>is_open := True, failed := False, get_area := bs\<rparr>, fs))
         | Out \<Rightarrow> (if writable fs p
                   then (closed\<lparr>is_open := True, failed := False\<rparr>,
                         fs\<lparr>files := (files fs)(p \<mapsto> [])\<rparr>)
                   else (closed, fs)))"

text \<open>
  \<open>write(s, n)\<close>: nothing happens on a stream that is not good; otherwise the first \<open>n\<close>
  bytes at \<open>s\<close> are inserted. When fewer than \<open>n\<close> bytes could be inserted (the count is
  negative, or no file is open for output) the stream goes bad.
\<close>

definition fstream_write :: "byte list \<Rightarrow> int \<Rightarrow> fstream \<Rightarrow> fstream" where
  "fstream_write s n f =
     (if failed f then f
      else if n = 0 then f
      else if 0 < n \<and> is_open f \<and> openmode f = Out
      then f\<lparr>put_area := put_area f @ take (nat n) s\<rparr>
      else f\<lparr>failed := True\<rparr>)"

text \<open>
  \<open>read(s, n)\<close>: nothing happens on a stream that is not good; otherwise up to \<open>n\<close> bytes
  are extracted and stored at \<open>s\<close>, the rest of the destination keeps its bytes, and the
  stream fails (eofbit and failbit) when the number extracted is not \<open>n\<close>.
\<close>

definition fstream_read :: "byte list \<Rightarrow> int \<Rightarrow> fstream \<Rightarrow> byte list \<times> fstream" where
  "fstream_read s n f =
     (if failed f then (s, f)
      else
        let avail = (if is_open f \<and> openmode f = In then get_area f else []);
            got = take (nat n) avail
        in (got @ drop (length got) s,
            f\<lparr>get_area := drop (length got) (get_area f),
              failed := (int (length got) \<noteq> n)\<rparr>))"

text \<open>
  \<open>close()\<close>: an open file is closed, and what was inserted becomes the content of the
  file; on a stream with no open file the call fails and sets failbit.
\<close>

definition fstream_close :: "fstream \<Rightarrow> filesystem \<Rightarrow> fstream \<times> filesystem" where
  "fstream_close f fs =
     (if is_open f
      then (f\<lparr>is_open := False, close_calls := close_calls f + 1\<rparr>,
            if openmode f = Out then fs\<lparr>files := (files fs)(fname f \<mapsto> put_area f)\<rparr> else fs)
      else (f\<lparr>failed := True, close_calls := close_calls f + 1\<rparr>, fs))"

text \<open>
  The destructor of the stream, run when the owning \<open>std::unique_ptr\<close> goes away: a file
  that is still open is released.
\<close>

definition fstream_dtor :: "fstream \<Rightarrow> filesystem \<Rightarrow> filesystem" where
  "fstream_dtor f fs =
     (if is_open f \<and> openmode f = Out
      then fs\<lparr>files := (files fs)(fname f \<mapsto> put_area f)\<rparr> else fs)"

section \<open>Archive and FileArchive\<close>

datatype Mode = Write | Read | SIZE

record Archive =
  mode_m :: Mode

record FileArchive = Archive +
  path_m :: string
  file_m :: fstream

definition IsWrite :: "'a Archive_scheme \<Rightarrow> bool" where
  "IsWrite ar = (mode_m ar = Write)"

definition IsRead :: "'a Archive_scheme \<Rightarrow> bool" where
  "IsRead ar = (mode_m ar = Read)"

text \<open>
  The members \<open>mode_\<close>, \<open>path_\<close> and \<open>file_\<close> are written \<open>mode_m\<close>, \<open>path_m\<close> and \<open>file_m\<close>.
  \<open>file_m\<close> is set by the constructor from \<open>new\<close> and never reset, so the pointer test of
  \<open>IsStreamValid\<close> always passes and the stream's own state decides.
\<close>

definition IsStreamValid :: "FileArchive \<Rightarrow> bool" where
  "IsStreamValid ar = (\<not> failed (file_m ar))"

text \<open>
  The constructor opens the stream for input in Read mode and for output otherwise. The
  line it prints when the stream is not valid is left out of the state.
\<close>

definition FileArchive_ctor :: "string \<Rightarrow> Mode \<Rightarrow> filesystem \<Rightarrow> FileArchive \<times> filesystem" where
  "FileArchive_ctor p m fs =
     (let ios_mode = (if m = Read then In else Out);
          (f, fs') = fstream_open p ios_mode fs
      in (\<lparr>mode_m = m, path_m = p, file_m = f\<rparr>, fs'))"

text \<open>The body of the destructor, then the destruction of the member \<open>file_m\<close>.\<close>

definition FileArchive_dtor_body :: "FileArchive \<Rightarrow> filesystem \<Rightarrow> FileArchive \<times> filesystem" where
  "FileArchive_dtor_body ar fs =
     (if \<not> IsStreamValid ar
      then (let (f, fs') = fstream_close (file_m ar) fs in (ar\<lparr>file_m := f\<rparr>, fs'))
      else (ar, fs))"

definition FileArchive_dtor :: "FileArchive \<Rightarrow> filesystem \<Rightarrow> filesystem" where
  "FileArchive_dtor ar fs =
     (let (ar', fs') = FileArchive_dtor_body ar fs in fstream_dtor (file_m ar') fs')"

subsection \<open>Scalars\<close>

definition op_int :: "i32 \<Rightarrow> FileArchive \<Rightarrow> i32 \<times> FileArchive" where
  "op_int val ar =
     (if \<not> IsStreamValid ar then (val, ar)
      else if IsWrite ar
      then (val, ar\<lparr>file_m := fstream_write (mem_of_u32 val) 4 (file_m ar)\<rparr>)
      else (let (m, f) = fstream_read (mem_of_u32 val) 4 (file_m ar)
            in (u32_of_mem m, ar\<lparr>file_m := f\<rparr>)))"

definition op_uint :: "u32 \<Rightarrow> FileArchive \<Rightarrow> u32 \<times> FileArchive" where
  "op_uint val ar =
     (if \<not> IsStreamValid ar then (val, ar)
      else if IsWrite ar
      then (val, ar\<lparr>file_m := fstream_write (mem_of_u32 val) 4 (file_m ar)\<rparr>)
      else (let (m, f) = fstream_read (mem_of_u32 val) 4 (file_m ar)
            in (u32_of_mem m, ar\<lparr>file_m := f\<rparr>)))"

subsection \<open>Failures\<close>

text \<open>
  What stops the process: the \<open>assert\<close> of \<open>SerializeBuffer\<close> (the file is compiled
  without \<open>NDEBUG\<close>, nothing defines it), the \<open>std::length_error\<close> thrown by
  \<open>std::string::resize\<close> for a negative \<open>int\<close> converted to a size, which nothing catches,
  and behaviour the language leaves undefined: reading the local \<open>int len\<close> when the
  stream could not fill it, and \<open>++idx\<close> on an \<open>int\<close> equal to \<open>INT_MAX\<close>. Memory is
  taken to suffice: no allocation fails.
\<close>

datatype fault = Assertion_failed | Length_error | Undefined_behaviour

subsection \<open>Text\<close>

text \<open>
  A \<open>std::string\<close> is the list of its bytes; \<open>c_str()\<close> is these bytes and a zero byte.
  \<open>resize n c\<close> keeps the first \<open>n\<close> elements and pads with \<open>c\<close>.
\<close>

definition resize :: "nat \<Rightarrow> 'a \<Rightarrow> 'a list \<Rightarrow> 'a list" where
  "resize n c xs = take n xs @ replicate (n - length xs) c"

definition op_string :: "byte list \<Rightarrow> FileArchive \<Rightarrow> fault + byte list \<times> FileArchive" where
  "op_string val ar =
     (if \<not> IsStreamValid ar then Inr (val, ar)
      else if IsWrite ar
      then (let len = (word_of_nat (length val + 1) :: i32);
                f1 = fstream_write (mem_of_u32 len) 4 (file_m ar);
                f2 = fstream_write (val @ [0]) (sint len) f1
            in Inr (val, ar\<lparr>file_m := f2\<rparr>))
      else (let (m, f1) = fstream_read (replicate 4 0) 4 (file_m ar);
                len = u32_of_mem m
            in if failed f1 then Inl Undefined_behaviour
               else if sint len < 0 then Inl Length_error
               else (let (s, f2) = fstream_read (resize (nat (sint len)) 0 val) (sint len) f1
                     in Inr (s, ar\<lparr>file_m := f2\<rparr>))))"

subsection \<open>Raw buffers\<close>

text \<open>
  \<open>data\<close> is the memory the pointer designates and \<open>bytes\<close> the \<open>int\<close> parameter; the
  memory comes back as the read left it.
\<close>

definition SerializeBuffer :: "byte list \<Rightarrow> i32 \<Rightarrow> FileArchive \<Rightarrow> fault + byte list \<times> FileArchive" where
  "SerializeBuffer data bytes ar =
     (if \<not> IsStreamValid ar then Inr (data, ar)
      else if IsWrite ar
      then (let f1 = fstream_write (mem_of_u32 bytes) 4 (file_m ar);
                f2 = fstream_write data (sint bytes) f1
            in Inr (data, ar\<lparr>file_m := f2\<rparr>))
      else (let (m, f1) = fstream_read (mem_of_u32 0) 4 (file_m ar);
                read_bytes = u32_of_mem m
            in if read_bytes \<noteq> bytes then Inl Assertion_failed
               else (let (d, f2) = fstream_read data (sint bytes) f1
                     in Inr (d, ar\<lparr>file_m := f2\<rparr>))))"

subsection \<open>Vectors of basic types\<close>

text \<open>
  An element type \<open>T\<close> of the fast path is given by \<open>sizeof(T)\<close>, the memory image of a
  value, the value a memory image stands for, and the value \<open>T()\<close> that
  \<open>std::vector::resize\<close> appends. \<open>val.data()\<close> is the images of the elements one after
  the other. A floating-point value is taken as its bit pattern.
\<close>

record 'a BasicType =
  size_of :: nat
  mem_of :: "'a \<Rightarrow> byte list"
  of_mem :: "byte list \<Rightarrow> 'a"
  zero_of :: 'a

definition BasicType_ok :: "'a BasicType \<Rightarrow> bool" where
  "BasicType_ok T =
     (0 < size_of T \<and> (\<forall>x. length (mem_of T x) = size_of T) \<and> (\<forall>x. of_mem T (mem_of T x) = x))"

definition int_type :: "i32 BasicType" where
  "int_type = \<lparr>size_of = 4, mem_of = mem_of_u32, of_mem = u32_of_mem, zero_of = 0\<rparr>"

definition vector_data :: "'a BasicType \<Rightarrow> 'a list \<Rightarrow> byte list" where
  "vector_data T val = concat (map (mem_of T) val)"

primrec vector_of_data :: "'a BasicType \<Rightarrow> nat \<Rightarrow> byte list \<Rightarrow> 'a list" where
  "vector_of_data T 0 d = []"
| "vector_of_data T (Suc n) d =
     of_mem T (take (size_of T) d) # vector_of_data T n (drop (size_of T) d)"

text \<open>
  \<open>unsigned int size = val.size()\<close> keeps the low 32 bits of the size, and the \<open>int\<close>
  parameter \<open>bytes\<close> the low 32 bits of \<open>val.size() * sizeof(T)\<close>.
\<close>

definition op_vector_basic :: "'a BasicType \<Rightarrow> 'a list \<Rightarrow> FileArchive \<Rightarrow> fault + 'a list \<times> FileArchive" where
  "op_vector_basic T val ar =
     (if IsWrite ar
      then (let sz = (word_of_nat (length val) :: u32);
                (sz', ar1) = op_uint sz ar
            in case SerializeBuffer (vector_data T val)
                      (word_of_nat (length val * size_of T)) ar1 of
                 Inl e \<Rightarrow> Inl e
               | Inr (d, ar2) \<Rightarrow> Inr (val, ar2))
      else (let (sz, ar1) = op_uint 0 ar;
                val1 = resize (unat sz) (zero_of T) val
            in case SerializeBuffer (vector_data T val1)
                      (word_of_nat (length val1 * size_of T)) ar1 of
                 Inl e \<Rightarrow> Inl e
               | Inr (d, ar2) \<Rightarrow> Inr (vector_of_data T (length val1) d, ar2)))"

subsection \<open>Vectors of other types\<close>

text \<open>
  The loop \<open>for(int idx = 0; idx < size; ++idx) *this << val[idx]\<close>, for the operation
  \<open>elem\<close> that \<open>*this << val[idx]\<close> resolves to. The comparison converts \<open>idx\<close> to
  \<open>unsigned int\<close>; \<open>idx\<close> is never negative. The local \<open>size\<close> is written \<open>sz\<close>.
\<close>

function vector_loop ::
  "('a \<Rightarrow> FileArchive \<Rightarrow> fault + 'a \<times> FileArchive) \<Rightarrow> u32 \<Rightarrow> nat \<Rightarrow> 'a list \<Rightarrow> FileArchive
     \<Rightarrow> fault + 'a list \<times> FileArchive" where
  "vector_loop elem sz idx val ar =
     (if idx < unat sz
      then (case elem (val ! idx) ar of
              Inl e \<Rightarrow> Inl e
            | Inr (v, ar') \<Rightarrow>
                if idx = 2147483647 then Inl Undefined_behaviour
                else vector_loop elem sz (idx + 1) (val[idx := v]) ar')
      else Inr (val, ar))"
  by pat_completeness auto
termination
  by (relation "measure (\<lambda>(elem, sz, idx, val, ar). unat sz - idx)") auto

declare vector_loop.simps [simp del]

definition op_vector ::
  "('a \<Rightarrow> FileArchive \<Rightarrow> fault + 'a \<times> FileArchive) \<Rightarrow> 'a \<Rightarrow> 'a list \<Rightarrow> FileArchive
     \<Rightarrow> fault + 'a list \<times> FileArchive" where
  "op_vector elem dflt val ar =
     (if IsWrite ar
      then (let sz = (word_of_nat (length val) :: u32);
                (sz', ar1) = op_uint sz ar
            in vector_loop elem sz' 0 val ar1)
      else (let (sz, ar1) = op_uint 0 ar;
                val1 = resize (unat sz) dflt val
            in vector_loop elem sz 0 val1 ar1))"

subsection \<open>Serializing an object to and from a file\<close>

text \<open>
  \<open>ISerializable::Serialize\<close> is a parameter: the callback of the object, which takes the
  object and the archive and gives both back.
\<close>

definition SerializeToFile ::
  "('o \<Rightarrow> FileArchive \<Rightarrow> fault + 'o \<times> FileArchive) \<Rightarrow> 'o \<Rightarrow> string \<Rightarrow> filesystem
     \<Rightarrow> fault + 'o \<times> filesystem" where
  "SerializeToFile Serialize obj p fs =
     (let (file, fs1) = FileArchive_ctor p Write fs
      in case Serialize obj file of
           Inl e \<Rightarrow> Inl e
         | Inr (obj', file') \<Rightarrow> Inr (obj', FileArchive_dtor file' fs1))"

definition SerializeFromFile ::
  "('o \<Rightarrow> FileArchive \<Rightarrow> fault + 'o \<times> FileArchive) \<Rightarrow> 'o \<Rightarrow> string \<Rightarrow> filesystem
     \<Rightarrow> fault + 'o \<times> filesystem" where
  "SerializeFromFile Serialize obj p fs =
     (let (file, fs1) = FileArchive_ctor p Read fs
      in case Serialize obj file of
           Inl e \<Rightarrow> Inl e
         | Inr (obj', file') \<Rightarrow> Inr (obj', FileArchive_dtor file' fs1))"

subsection \<open>The example object\<close>

record Foo =
  integer :: i32
  str :: "byte list"
  vector :: "i32 list"
  vector_str :: "byte list list"

definition Foo_Serialize :: "Foo \<Rightarrow> FileArchive \<Rightarrow> fault + Foo \<times> FileArchive" where
  "Foo_Serialize f arch =
     (let (i, a1) = op_int (integer f) arch
      in case op_string (str f) a1 of
           Inl e \<Rightarrow> Inl e
         | Inr (s, a2) \<Rightarrow>
             (case op_vector_basic int_type (vector f) a2 of
                Inl e \<Rightarrow> Inl e
              | Inr (v, a3) \<Rightarrow>
                  (case op_vector op_string [] (vector_str f) a3 of
                     Inl e \<Rightarrow> Inl e
                   | Inr (vs, a4) \<Rightarrow>
                       Inr (\<lparr>integer = i, str = s, vector = v, vector_str = vs\<rparr>, a4))))"

text \<open>A default-constructed \<open>Foo\<close>.\<close>

definition Foo0 :: Foo where
  "Foo0 = \<lparr>integer = 0, str = [], vector = [], vector_str = []\<rparr>"

subsection \<open>Element after element\<close>

text \<open>
  What the specification says of the vectors of other types: each element is
  serialized on its own, in the order of the vector, through the same archive. The
  operation of the element gives the element and the archive back.
\<close>

fun serialize_each ::
  "('a \<Rightarrow> FileArchive \<Rightarrow> fault + 'a \<times> FileArchive) \<Rightarrow> 'a list \<Rightarrow> FileArchive
     \<Rightarrow> fault + 'a list \<times> FileArchive" where
  "serialize_each elem [] ar = Inr ([], ar)"
| "serialize_each elem (x # xs) ar =
     (case elem x ar of
        Inl e \<Rightarrow> Inl e
      | Inr (x', ar1) \<Rightarrow>
          (case serialize_each elem xs ar1 of
             Inl e \<Rightarrow> Inl e
           | Inr (xs', ar2) \<Rightarrow> Inr (x' # xs', ar2)))"

subsection \<open>The wire format\<close>

text \<open>
  The encodings the specification gives for text and for a vector of a basic type: a
  4-byte length that counts the terminator, the characters and the terminator; a
  4-byte element count, a 4-byte byte count and the raw bytes.
\<close>

definition enc_string :: "byte list \<Rightarrow> byte list" where
  "enc_string s = mem_of_u32 (word_of_nat (length s + 1)) @ s @ [0]"

definition enc_vector_basic :: "'a BasicType \<Rightarrow> 'a list \<Rightarrow> byte list" where
  "enc_vector_basic T val =
     mem_of_u32 (word_of_nat (length val)) @ mem_of_u32 (word_of_nat (length val * size_of T)) @
     vector_data T val"

text \<open>A vector of another type: a 4-byte element count and the elements one by one.\<close>

definition enc_vector :: "('a \<Rightarrow> byte list) \<Rightarrow> 'a list \<Rightarrow> byte list" where
  "enc_vector enc val = mem_of_u32 (word_of_nat (length val)) @ concat (map enc val)"

text \<open>
  The bytes of a \<open>Foo\<close>: its fields in the order of \<open>Foo::Serialize\<close>. What a read gives
  back for a \<open>Foo\<close> that was written: every text carries the terminator as its last
  character. The sizes for which the 32-bit fields of the format hold the sizes of a \<open>Foo\<close>.
\<close>

definition enc_Foo :: "Foo \<Rightarrow> byte list" where
  "enc_Foo f =
     mem_of_u32 (integer f) @ enc_string (str f) @ enc_vector_basic int_type (vector f) @
     enc_vector enc_string (vector_str f)"

definition terminated :: "Foo \<Rightarrow> Foo" where
  "terminated f = f\<lparr>str := str f @ [0], vector_str := map (\<lambda>s. s @ [0]) (vector_str f)\<rparr>"

definition Foo_fits :: "Foo \<Rightarrow> bool" where
  "Foo_fits f =
     (length (str f) + 1 < 2 ^ 31 \<and> length (vector f) * 4 < 2 ^ 31 \<and>
      length (vector_str f) < 2 ^ 31 \<and> (\<forall>s\<in>set (vector_str f). length s + 1 < 2 ^ 31))"

subsection \<open>Archives at work\<close>

text \<open>
  An archive in Write mode over a good stream open for output, and one in Read mode
  over a good stream open for input; the archive after some bytes were inserted, and
  the archive with the bytes still to extract replaced.
\<close>

definition writing :: "FileArchive \<Rightarrow> bool" where
  "writing ar = (mode_m ar = Write \<and> \<not> failed (file_m ar) \<and> is_open (file_m ar) \<and>
                 openmode (file_m ar) = Out)"

definition reading :: "FileArchive \<Rightarrow> bool" where
  "reading ar = (mode_m ar = Read \<and> \<not> failed (file_m ar) \<and> is_open (file_m ar) \<and>
                 openmode (file_m ar) = In)"

definition put :: "byte list \<Rightarrow> FileArchive \<Rightarrow> FileArchive" where
  "put bs ar = ar\<lparr>file_m := (file_m ar)\<lparr>put_area := put_area (file_m ar) @ bs\<rparr>\<rparr>"

definition unread :: "byte list \<Rightarrow> FileArchive \<Rightarrow> FileArchive" where
  "unread bs ar = ar\<lparr>file_m := (file_m ar)\<lparr>get_area := bs\<rparr>\<rparr>"

subsection \<open>Concrete inputs\<close>

text \<open>An empty file system in which every path can be created.\<close>

definition fs0 :: filesystem where
  "fs0 = \<lparr>files = Map.empty, writable = (\<lambda>p. True)\<rparr>"

definition bytes_of :: "string \<Rightarrow> byte list" where
  "bytes_of s = map of_char s"

text \<open>The object that \<open>main\<close> serializes.\<close>

definition main_Foo :: Foo where
  "main_Foo = \<lparr>integer = 2, str = bytes_of ''Hello'', vector = [1, 2, 3],
     vector_str = [bytes_of ''a'',
       bytes_of ''HelloHelloHelloHelloHelloHelloHelloHelloHelloHelloHelloHello!'']\<rparr>"

text \<open>A vector of \<open>2^32\<close> empty strings.\<close>

definition many_strings :: "byte list list" where
  "many_strings = replicate (2 ^ 32) []"

text \<open>A vector of \<open>2^29\<close> \<open>int\<close>s: two gibibytes of elements.\<close>

definition big_vector :: "i32 list" where
  "big_vector = replicate (2 ^ 29) 1"

text \<open>A \<open>Foo\<close> that holds the vector of \<open>2^29\<close> \<open>int\<close>s, and the bytes its serialization leaves.\<close>

definition big_Foo :: Foo where
  "big_Foo = Foo0\<lparr>vector := big_vector\<rparr>"

definition enc_big_Foo :: "byte list" where
  "enc_big_Foo = mem_of_u32 0 @ enc_string [] @ mem_of_u32 536870912 @ mem_of_u32 2147483648"

section \<open>Properties\<close>

lemma u32_of_mem_of_u32 [simp]: "u32_of_mem (mem_of_u32 w) = w"
  unfolding mem_of_u32_def
proof (rule bit_word_eqI)
  fix n assume n: "n < LENGTH(32)"
  have c: "n < 8 \<or> (8 \<le> n \<and> n < 16) \<or> (16 \<le> n \<and> n < 24) \<or> (24 \<le> n \<and> n < 32)"
    using n by auto
  show "bit (u32_of_mem [ucast w, ucast (drop_bit 8 w), ucast (drop_bit 16 w),
                         ucast (drop_bit 24 w)]) n = bit w n"
    using c by (auto simp: bit_simps)
qed

lemma length_mem_of_u32 [simp]: "length (mem_of_u32 w) = 4"
  by (simp add: mem_of_u32_def)

subsection \<open>Sizes as 32-bit values\<close>

lemma sint_word_of_nat: "n < 2 ^ 31 \<Longrightarrow> sint (word_of_nat n :: 32 word) = int n"
  by (simp add: signed_of_nat signed_take_bit_int_eq_self)

lemma unat_word_of_nat: "n < 2 ^ 32 \<Longrightarrow> unat (word_of_nat n :: 32 word) = n"
  by (simp add: unat_of_nat)

lemma word_of_nat_unat_mult:
  "(word_of_nat (unat (word_of_nat n :: 32 word) * k) :: 32 word) = word_of_nat (n * k)"
  by simp

subsection \<open>The memory of a vector\<close>

lemma length_resize [simp]: "length (resize n c xs) = n"
  by (simp add: resize_def)

lemma length_vector_data:
  "\<forall>x. length (mem_of T x) = size_of T \<Longrightarrow> length (vector_data T val) = length val * size_of T"
  by (induction val) (simp_all add: vector_data_def)

lemma vector_of_data_vector_data:
  "BasicType_ok T \<Longrightarrow> vector_of_data T (length val) (vector_data T val @ rest) = val"
  by (induction val) (simp_all add: vector_data_def BasicType_ok_def)

lemma BasicType_ok_int_type: "BasicType_ok int_type"
  by (simp add: BasicType_ok_def int_type_def)

subsection \<open>Construction\<close>

lemma ctor_Write:
  "writable fs p \<Longrightarrow> FileArchive_ctor p Write fs =
     (\<lparr>mode_m = Write, path_m = p,
       file_m = \<lparr>fname = p, openmode = Out, is_open = True, failed = False,
                 get_area = [], put_area = [], close_calls = 0\<rparr>\<rparr>,
      fs\<lparr>files := (files fs)(p \<mapsto> [])\<rparr>)"
  by (simp add: FileArchive_ctor_def fstream_open_def)

lemma ctor_Read:
  "files fs p = Some bs \<Longrightarrow> FileArchive_ctor p Read fs =
     (\<lparr>mode_m = Read, path_m = p,
       file_m = \<lparr>fname = p, openmode = In, is_open = True, failed = False,
                 get_area = bs, put_area = [], close_calls = 0\<rparr>\<rparr>, fs)"
  by (simp add: FileArchive_ctor_def fstream_open_def)

lemma ctor_invalid:
  assumes "FileArchive_ctor p m fs = (ar, fs')" and "\<not> IsStreamValid ar"
  shows "fs' = fs" and "\<not> is_open (file_m ar)"
  using assms
  by (auto simp: FileArchive_ctor_def fstream_open_def IsStreamValid_def Let_def
      split: if_splits option.splits openmode.splits)

lemma ctor_Write_writing:
  assumes "writable fs p"
  obtains w where "FileArchive_ctor p Write fs = (w, fs\<lparr>files := (files fs)(p \<mapsto> [])\<rparr>)"
    "writing w" "put_area (file_m w) = []" "fname (file_m w) = p"
  using ctor_Write [OF assms] by (simp add: writing_def)

lemma ctor_Read_reading:
  assumes "files fs p = Some bs"
  obtains r where "FileArchive_ctor p Read fs = (r, fs)" "reading r" "get_area (file_m r) = bs"
  using ctor_Read [OF assms] by (simp add: reading_def)

lemma dtor_open_Out:
  assumes "is_open (file_m ar)" "openmode (file_m ar) = Out"
  shows "FileArchive_dtor ar fs = fs\<lparr>files := (files fs)(fname (file_m ar) \<mapsto> put_area (file_m ar))\<rparr>"
  using assms
  by (simp add: FileArchive_dtor_def FileArchive_dtor_body_def fstream_close_def fstream_dtor_def)

lemma dtor_In:
  assumes "openmode (file_m ar) = In"
  shows "FileArchive_dtor ar fs = fs"
  using assms
  by (simp add: FileArchive_dtor_def FileArchive_dtor_body_def fstream_close_def fstream_dtor_def)

lemma dtor_put:
  assumes "writing w"
  shows "FileArchive_dtor (put bs w) fs =
         fs\<lparr>files := (files fs)(fname (file_m w) \<mapsto> put_area (file_m w) @ bs)\<rparr>"
  using assms by (simp add: dtor_open_Out writing_def put_def)

subsection \<open>Operations on a good stream\<close>

lemma writing_put [simp]: "writing (put bs ar) = writing ar"
  by (simp add: writing_def put_def)

lemma put_put [simp]: "put bs (put as ar) = put (as @ bs) ar"
  by (simp add: put_def)

lemma put_Nil [simp]: "put [] ar = ar"
  by (simp add: put_def)

lemma reading_unread [simp]: "reading (unread bs ar) = reading ar"
  by (simp add: reading_def unread_def)

lemma get_area_unread [simp]: "get_area (file_m (unread bs ar)) = bs"
  by (simp add: unread_def)

lemma unread_unread [simp]: "unread bs (unread as ar) = unread bs ar"
  by (simp add: unread_def)

lemma op_int_writing: "writing ar \<Longrightarrow> op_int v ar = (v, put (mem_of_u32 v) ar)"
  by (simp add: writing_def op_int_def IsStreamValid_def IsWrite_def fstream_write_def put_def)

lemma op_uint_writing: "writing ar \<Longrightarrow> op_uint v ar = (v, put (mem_of_u32 v) ar)"
  by (simp add: writing_def op_uint_def IsStreamValid_def IsWrite_def fstream_write_def put_def)

lemma sint_length_plus_1:
  assumes "length s + 1 < 2 ^ 31"
  shows "sint (1 + word_of_nat (length s) :: 32 word) = 1 + int (length s)"
  using sint_word_of_nat [OF assms] by simp

lemma nat_1_plus_int [simp]: "nat (1 + int n) = Suc n"
  by simp

lemma op_string_writing:
  assumes "writing ar" "length s + 1 < 2 ^ 31"
  shows "op_string s ar = Inr (s, put (enc_string s) ar)"
  using assms(1) sint_length_plus_1 [OF assms(2)]
  by (simp add: writing_def op_string_def IsStreamValid_def IsWrite_def fstream_write_def
      put_def enc_string_def Let_def)

lemma SerializeBuffer_writing:
  assumes "writing ar" "length d < 2 ^ 31"
  shows "SerializeBuffer d (word_of_nat (length d)) ar =
         Inr (d, put (mem_of_u32 (word_of_nat (length d)) @ d) ar)"
  using assms
  by (simp add: writing_def SerializeBuffer_def IsStreamValid_def IsWrite_def fstream_write_def
      put_def sint_word_of_nat Let_def)

lemma op_vector_basic_writing:
  assumes "writing ar" "length val * size_of T < 2 ^ 31" "\<forall>x. length (mem_of T x) = size_of T"
  shows "op_vector_basic T val ar = Inr (val, put (enc_vector_basic T val) ar)"
proof -
  have l: "length (vector_data T val) = length val * size_of T"
    using assms(3) by (rule length_vector_data)
  have w: "IsWrite ar" using assms(1) by (simp add: writing_def IsWrite_def)
  show ?thesis
    using SerializeBuffer_writing [of "put (mem_of_u32 (word_of_nat (length val))) ar" "vector_data T val"]
      assms(1,2) w
    by (simp add: op_vector_basic_def op_uint_writing l enc_vector_basic_def)
qed

lemma op_int_reading:
  assumes "reading ar" "get_area (file_m ar) = mem_of_u32 v @ rest"
  shows "op_int x ar = (v, unread rest ar)"
  using assms
  by (simp add: reading_def op_int_def IsStreamValid_def IsWrite_def fstream_read_def unread_def)

lemma op_uint_reading:
  assumes "reading ar" "get_area (file_m ar) = mem_of_u32 v @ rest"
  shows "op_uint x ar = (v, unread rest ar)"
  using assms
  by (simp add: reading_def op_uint_def IsStreamValid_def IsWrite_def fstream_read_def unread_def)

lemma op_string_reading:
  assumes "reading ar" "get_area (file_m ar) = enc_string s @ rest" "length s + 1 < 2 ^ 31"
  shows "op_string t ar = Inr (s @ [0], unread rest ar)"
  using assms(1,2) sint_length_plus_1 [OF assms(3)]
  by (simp add: reading_def op_string_def IsStreamValid_def IsWrite_def fstream_read_def
      unread_def enc_string_def Let_def resize_def)

lemma SerializeBuffer_reading:
  assumes "reading ar" "get_area (file_m ar) = mem_of_u32 (word_of_nat (length d)) @ d @ rest"
    "length d < 2 ^ 31" "length d' = length d"
  shows "SerializeBuffer d' (word_of_nat (length d)) ar = Inr (d, unread rest ar)"
  using assms
  by (simp add: reading_def SerializeBuffer_def IsStreamValid_def IsWrite_def fstream_read_def
      unread_def sint_word_of_nat Let_def)

lemma op_vector_basic_reading:
  assumes "reading ar" "get_area (file_m ar) = enc_vector_basic T val @ rest"
    "length val * size_of T < 2 ^ 31" "BasicType_ok T"
  shows "op_vector_basic T old ar = Inr (val, unread rest ar)"
proof -
  have m: "\<forall>x. length (mem_of T x) = size_of T" and p: "0 < size_of T"
    using assms(4) by (simp_all add: BasicType_ok_def)
  have "length val \<le> length val * size_of T"
    using p by (cases "size_of T") simp_all
  then have "length val < 2 ^ 31"
    using assms(3) by (rule order_le_less_trans)
  then have n: "length val < 2 ^ 32" by simp
  have u: "unat (word_of_nat (length val) :: u32) = length val"
    using n by (rule unat_word_of_nat)
  have w: "\<not> IsWrite ar" using assms(1) by (simp add: reading_def IsWrite_def)
  let ?ar1 = "unread (mem_of_u32 (word_of_nat (length val * size_of T)) @ vector_data T val @ rest) ar"
  let ?val1 = "resize (length val) (zero_of T) old"
  have c: "op_uint 0 ar = (word_of_nat (length val), ?ar1)"
    using assms(1,2) by (intro op_uint_reading) (simp_all add: enc_vector_basic_def)
  have b: "SerializeBuffer (vector_data T ?val1) (word_of_nat (length (vector_data T val))) ?ar1
           = Inr (vector_data T val, unread rest ?ar1)"
    using assms(1,3) m by (intro SerializeBuffer_reading) (simp_all add: length_vector_data)
  show ?thesis
    using c b w u vector_of_data_vector_data [OF assms(4), of val "[]"]
    by (simp add: op_vector_basic_def length_vector_data [OF m])
qed


lemma op_vector_basic_writing_any:
  assumes "writing ar"
  shows "\<exists>w'. op_vector_basic T val ar = Inr (val, w') \<and>
           is_open (file_m w') \<and> openmode (file_m w') = Out \<and>
           fname (file_m w') = fname (file_m ar) \<and>
           put_area (file_m w') =
             put_area (file_m ar) @ mem_of_u32 (word_of_nat (length val)) @
             mem_of_u32 (word_of_nat (length val * size_of T)) @
             take (nat (sint (word_of_nat (length val * size_of T) :: i32))) (vector_data T val)"
proof -
  have w: "IsWrite ar" using assms by (simp add: writing_def IsWrite_def)
  show ?thesis
    using assms w
    by (simp add: op_vector_basic_def op_uint_writing SerializeBuffer_def IsStreamValid_def
        IsWrite_def fstream_write_def Let_def writing_def put_def)
qed

lemma op_vector_basic_reading_any:
  assumes "reading ar"
    and "get_area (file_m ar) = mem_of_u32 cnt @ mem_of_u32 stored @ payload"
    and "stored = word_of_nat (unat cnt * size_of T)"
  shows "\<exists>r'. op_vector_basic T old ar =
           Inr (vector_of_data T (unat cnt)
                  (take (nat (sint stored)) payload @
                   drop (length (take (nat (sint stored)) payload))
                     (vector_data T (resize (unat cnt) (zero_of T) old))), r')"
proof -
  have w: "\<not> IsWrite ar" using assms(1) by (simp add: reading_def IsWrite_def)
  have c: "op_uint 0 ar = (cnt, unread (mem_of_u32 stored @ payload) ar)"
    using assms(1,2) by (rule op_uint_reading)
  show ?thesis
    using assms(1,3) w c
    by (simp add: op_vector_basic_def SerializeBuffer_def IsStreamValid_def
        IsWrite_def fstream_read_def Let_def reading_def unread_def)
qed

lemma length_big_vector: "length big_vector = 536870912"
  by (simp add: big_vector_def)

lemma resize_Nil: "resize n c [] = replicate n c"
  by (simp add: resize_def)

subsection \<open>The loop over the elements\<close>

lemma vector_loop_serialize_each:
  assumes "unat sz \<le> length val" "unat sz < 2 ^ 31" "idx \<le> unat sz"
  shows "vector_loop elem sz idx val ar =
         (case serialize_each elem (take (unat sz - idx) (drop idx val)) ar of
            Inl e \<Rightarrow> Inl e
          | Inr (ys, ar') \<Rightarrow> Inr (take idx val @ ys @ drop (unat sz) val, ar'))"
  using assms
proof (induction "unat sz - idx" arbitrary: idx val ar)
  case 0
  then show ?case by (subst vector_loop.simps) simp
next
  case (Suc k)
  then have lt: "idx < unat sz" and k: "k = unat sz - Suc idx" and n: "idx \<noteq> 2147483647"
    and len: "idx < length val"
    by simp_all
  have split: "take (unat sz - idx) (drop idx val) =
               val ! idx # take (unat sz - Suc idx) (drop (Suc idx) val)"
    using lt len by (metis Cons_nth_drop_Suc Suc_diff_Suc take_Suc_Cons)
  show ?case
  proof (cases "elem (val ! idx) ar")
    case (Inl e)
    with lt split show ?thesis by (subst vector_loop.simps) simp
  next
    case (Inr b)
    obtain v ar' where b: "b = (v, ar')" by (cases b)
    have ih: "vector_loop elem sz (Suc idx) (val[idx := v]) ar' =
         (case serialize_each elem (take (unat sz - Suc idx) (drop (Suc idx) (val[idx := v]))) ar' of
            Inl e \<Rightarrow> Inl e
          | Inr (ys, ar'') \<Rightarrow>
              Inr (take (Suc idx) (val[idx := v]) @ ys @ drop (unat sz) (val[idx := v]), ar''))"
      using Suc.hyps(1) [OF k] Suc.prems lt by simp
    have t: "take (Suc idx) (val[idx := v]) = take idx val @ [v]"
      using len by (simp add: take_Suc_conv_app_nth)
    have d: "drop (unat sz) (val[idx := v]) = drop (unat sz) val"
      "drop (Suc idx) (val[idx := v]) = drop (Suc idx) val"
      using lt by simp_all
    show ?thesis
      using lt n Inr b split ih t d
      by (subst vector_loop.simps) (simp split: sum.splits)
  qed
qed


lemma op_uint_Write: "IsWrite ar \<Longrightarrow> fst (op_uint v ar) = v"
  by (simp add: op_uint_def)

lemma vector_loop_whole:
  assumes "unat sz = length val" "length val < 2 ^ 31"
  shows "vector_loop elem sz 0 val ar = serialize_each elem val ar"
proof -
  have "vector_loop elem sz 0 val ar =
        (case serialize_each elem (take (unat sz - 0) (drop 0 val)) ar of
           Inl e \<Rightarrow> Inl e
         | Inr (ys, ar') \<Rightarrow> Inr (take 0 val @ ys @ drop (unat sz) val, ar'))"
    using assms by (intro vector_loop_serialize_each) simp_all
  then show ?thesis
    by (simp add: assms(1) split: sum.splits)
qed

lemma serialize_each_op_string_writing:
  assumes "writing ar" "\<forall>s\<in>set xs. length s + 1 < 2 ^ 31"
  shows "serialize_each op_string xs ar = Inr (xs, put (concat (map enc_string xs)) ar)"
  using assms
proof (induction xs arbitrary: ar)
  case Nil
  then show ?case by simp
next
  case (Cons x xs)
  have "op_string x ar = Inr (x, put (enc_string x) ar)"
    using Cons.prems by (intro op_string_writing) simp_all
  moreover have "serialize_each op_string xs (put (enc_string x) ar) =
                 Inr (xs, put (concat (map enc_string xs)) (put (enc_string x) ar))"
    using Cons.prems by (intro Cons.IH) simp_all
  ultimately show ?case by simp
qed

lemma serialize_each_op_string_reading:
  assumes "reading ar" "get_area (file_m ar) = concat (map enc_string xs) @ rest"
    "\<forall>s\<in>set xs. length s + 1 < 2 ^ 31" "length old = length xs"
  shows "serialize_each op_string old ar = Inr (map (\<lambda>s. s @ [0]) xs, unread rest ar)"
  using assms
proof (induction xs arbitrary: ar old)
  case Nil
  then show ?case by (simp add: unread_def)
next
  case (Cons x xs)
  obtain o1 os where old: "old = o1 # os" "length os = length xs"
    using Cons.prems(4) by (cases old) simp_all
  let ?rest = "concat (map enc_string xs) @ rest"
  have 1: "op_string o1 ar = Inr (x @ [0], unread ?rest ar)"
    using Cons.prems(1-3) by (intro op_string_reading) simp_all
  have 2: "serialize_each op_string os (unread ?rest ar) =
           Inr (map (\<lambda>s. s @ [0]) xs, unread rest (unread ?rest ar))"
    using Cons.prems old(2) by (intro Cons.IH) simp_all
  show ?case using 1 2 old(1) by simp
qed


lemma put_eq_self: "put bs ar = ar \<Longrightarrow> bs = []"
proof -
  assume "put bs ar = ar"
  then have "put_area (file_m (put bs ar)) = put_area (file_m ar)" by simp
  then show "bs = []" by (simp add: put_def)
qed

lemma length_many_strings: "length many_strings = 4294967296"
  by (simp add: many_strings_def)

subsection \<open>An archive whose stream has failed\<close>

lemma op_vector_basic_writing_negative:
  assumes "writing ar" "sint (word_of_nat (length val * size_of T) :: i32) < 0"
  shows "op_vector_basic T val ar =
         Inr (val, ar\<lparr>file_m := (file_m ar)\<lparr>failed := True,
                  put_area := put_area (file_m ar) @ mem_of_u32 (word_of_nat (length val)) @
                              mem_of_u32 (word_of_nat (length val * size_of T))\<rparr>\<rparr>)"
  using assms
  by (simp add: op_vector_basic_def op_uint_writing SerializeBuffer_def IsStreamValid_def
      IsWrite_def fstream_write_def Let_def writing_def put_def del: of_nat_mult)

lemma SerializeBuffer_reading_negative:
  assumes "reading ar" "get_area (file_m ar) = mem_of_u32 bytes @ rest" "sint bytes < 0"
  shows "SerializeBuffer d bytes ar =
         Inr (d, ar\<lparr>file_m := (file_m ar)\<lparr>failed := True, get_area := rest\<rparr>\<rparr>)"
  using assms
  by (simp add: SerializeBuffer_def IsStreamValid_def IsWrite_def fstream_read_def Let_def
      reading_def)

lemma op_vector_basic_reading_negative:
  assumes "reading ar" "get_area (file_m ar) = mem_of_u32 cnt @ mem_of_u32 stored @ rest"
    "stored = word_of_nat (unat cnt * size_of T)" "sint stored < 0" "BasicType_ok T"
  shows "op_vector_basic T old ar =
         Inr (resize (unat cnt) (zero_of T) old,
              ar\<lparr>file_m := (file_m ar)\<lparr>failed := True, get_area := rest\<rparr>\<rparr>)"
proof -
  let ?ar1 = "unread (mem_of_u32 stored @ rest) ar"
  let ?val1 = "resize (unat cnt) (zero_of T) old"
  have w: "\<not> IsWrite ar" using assms(1) by (simp add: reading_def IsWrite_def)
  have c: "op_uint 0 ar = (cnt, ?ar1)"
    using assms(1,2) by (rule op_uint_reading)
  have z: "vector_of_data T (unat cnt) (vector_data T ?val1) = ?val1"
    using vector_of_data_vector_data [OF assms(5), of ?val1 "[]"] by simp
  have "SerializeBuffer (vector_data T ?val1) stored ?ar1 =
        Inr (vector_data T ?val1,
             ?ar1\<lparr>file_m := (file_m ?ar1)\<lparr>failed := True, get_area := rest\<rparr>\<rparr>)"
    using _ _ assms(4) by (rule SerializeBuffer_reading_negative) (simp_all add: assms(1))
  then have b: "SerializeBuffer (vector_data T ?val1) (word_of_nat (unat cnt * size_of T)) ?ar1 =
        Inr (vector_data T ?val1,
             ar\<lparr>file_m := (file_m ar)\<lparr>failed := True, get_area := rest\<rparr>\<rparr>)"
    by (simp add: unread_def flip: assms(3) del: of_nat_mult)
  show ?thesis
    using w c b z by (simp add: op_vector_basic_def del: of_nat_mult)
qed

lemma op_vector_invalid:
  assumes "\<not> IsStreamValid ar"
  shows "IsWrite ar \<Longrightarrow> op_vector elem d [] ar = Inr ([], ar)"
    and "\<not> IsWrite ar \<Longrightarrow> op_vector elem d old ar = Inr ([], ar)"
  using assms by (simp_all add: op_vector_def op_uint_def vector_loop.simps resize_def)


subsection \<open>The example object on a good stream\<close>

lemma op_vector_op_string_writing:
  assumes "writing ar" "length xs < 2 ^ 31" "\<forall>s\<in>set xs. length s + 1 < 2 ^ 31"
  shows "op_vector op_string d xs ar = Inr (xs, put (enc_vector enc_string xs) ar)"
proof -
  let ?sz = "word_of_nat (length xs) :: u32"
  have iw: "IsWrite ar" using assms(1) by (simp add: writing_def IsWrite_def)
  have u: "unat ?sz = length xs"
    using assms(2) by (simp add: unat_word_of_nat)
  have "vector_loop op_string ?sz 0 xs (put (mem_of_u32 ?sz) ar) =
        serialize_each op_string xs (put (mem_of_u32 ?sz) ar)"
    using u assms(2) by (rule vector_loop_whole)
  also have "\<dots> = Inr (xs, put (concat (map enc_string xs)) (put (mem_of_u32 ?sz) ar))"
    using _ assms(3) by (rule serialize_each_op_string_writing) (simp add: assms(1))
  finally show ?thesis
    using iw assms(1) by (simp add: op_vector_def op_uint_writing enc_vector_def)
qed

lemma op_vector_op_string_reading:
  assumes "reading ar" "get_area (file_m ar) = enc_vector enc_string xs @ rest"
    "length xs < 2 ^ 31" "\<forall>s\<in>set xs. length s + 1 < 2 ^ 31"
  shows "op_vector op_string d old ar = Inr (map (\<lambda>s. s @ [0]) xs, unread rest ar)"
proof -
  let ?sz = "word_of_nat (length xs) :: u32"
  let ?ar1 = "unread (concat (map enc_string xs) @ rest) ar"
  let ?val1 = "resize (length xs) d old"
  have iw: "\<not> IsWrite ar" using assms(1) by (simp add: reading_def IsWrite_def)
  have u: "unat ?sz = length xs"
    using assms(3) by (simp add: unat_word_of_nat)
  have c: "op_uint 0 ar = (?sz, ?ar1)"
    using assms(1,2) by (intro op_uint_reading) (simp_all add: enc_vector_def)
  have "vector_loop op_string ?sz 0 ?val1 ?ar1 = serialize_each op_string ?val1 ?ar1"
    using u assms(3) by (intro vector_loop_whole) simp_all
  also have "\<dots> = Inr (map (\<lambda>s. s @ [0]) xs, unread rest ?ar1)"
    using assms(1,4) by (intro serialize_each_op_string_reading) simp_all
  finally show ?thesis
    using iw c u by (simp add: op_vector_def)
qed

lemma Foo_Serialize_writing:
  assumes "writing ar" "Foo_fits f"
  shows "Foo_Serialize f ar = Inr (f, put (enc_Foo f) ar)"
proof -
  have m: "\<forall>x. length (mem_of int_type x) = size_of int_type"
    by (simp add: int_type_def)
  have v: "length (vector f) * size_of int_type < 2 ^ 31"
    using assms(2) by (simp add: Foo_fits_def int_type_def)
  have 1: "op_int (integer f) ar = (integer f, put (mem_of_u32 (integer f)) ar)"
    using assms(1) by (rule op_int_writing)
  have 2: "op_string (str f) (put bs ar) = Inr (str f, put (enc_string (str f)) (put bs ar))" for bs
    using assms by (intro op_string_writing) (simp_all add: Foo_fits_def)
  have 3: "op_vector_basic int_type (vector f) (put bs ar) =
           Inr (vector f, put (enc_vector_basic int_type (vector f)) (put bs ar))" for bs
    using _ v m by (rule op_vector_basic_writing) (simp add: assms(1))
  have 4: "op_vector op_string [] (vector_str f) (put bs ar) =
           Inr (vector_str f, put (enc_vector enc_string (vector_str f)) (put bs ar))" for bs
    using assms by (intro op_vector_op_string_writing) (simp_all add: Foo_fits_def)
  show ?thesis
    by (simp add: Foo_Serialize_def 1 2 3 4 enc_Foo_def)
qed

lemma Foo_Serialize_reading:
  assumes "reading ar" "get_area (file_m ar) = enc_Foo f @ rest" "Foo_fits f"
  shows "Foo_Serialize g ar = Inr (terminated f, unread rest ar)"
proof -
  let ?r3 = "enc_vector enc_string (vector_str f) @ rest"
  let ?r2 = "enc_vector_basic int_type (vector f) @ ?r3"
  let ?r1 = "enc_string (str f) @ ?r2"
  have v: "length (vector f) * size_of int_type < 2 ^ 31"
    using assms(3) by (simp add: Foo_fits_def int_type_def)
  have 1: "op_int (integer g) ar = (integer f, unread ?r1 ar)"
    using assms(1,2) by (intro op_int_reading) (simp_all add: enc_Foo_def)
  have 2: "op_string (str g) (unread ?r1 ar) = Inr (str f @ [0], unread ?r2 (unread ?r1 ar))"
    using assms(1,3) by (intro op_string_reading) (simp_all add: Foo_fits_def)
  have 3: "op_vector_basic int_type (vector g) (unread ?r2 ar) =
           Inr (vector f, unread ?r3 (unread ?r2 ar))"
    using assms(1) v BasicType_ok_int_type by (intro op_vector_basic_reading) simp_all
  have 4: "op_vector op_string [] (vector_str g) (unread ?r3 ar) =
           Inr (map (\<lambda>s. s @ [0]) (vector_str f), unread rest (unread ?r3 ar))"
    using assms(1,3) by (intro op_vector_op_string_reading) (simp_all add: Foo_fits_def)
  show ?thesis
    using 1 2 3 4 by (simp add: Foo_Serialize_def terminated_def)
qed

lemma SerializeToFile_Foo:
  assumes "writable fs p" "Foo_fits f"
  shows "SerializeToFile Foo_Serialize f p fs = Inr (f, fs\<lparr>files := (files fs)(p \<mapsto> enc_Foo f)\<rparr>)"
proof -
  obtain w where w: "FileArchive_ctor p Write fs = (w, fs\<lparr>files := (files fs)(p \<mapsto> [])\<rparr>)"
    "writing w" "put_area (file_m w) = []" "fname (file_m w) = p"
    using assms(1) by (rule ctor_Write_writing)
  show ?thesis
    using w Foo_Serialize_writing [OF w(2) assms(2)]
    by (simp add: SerializeToFile_def dtor_put)
qed

lemma SerializeFromFile_Foo:
  assumes "files fs p = Some (enc_Foo f)" "Foo_fits f"
  shows "SerializeFromFile Foo_Serialize g p fs = Inr (terminated f, fs)"
proof -
  obtain r where r: "FileArchive_ctor p Read fs = (r, fs)" "reading r"
    "get_area (file_m r) = enc_Foo f"
    using assms(1) by (rule ctor_Read_reading)
  have "Foo_Serialize g r = Inr (terminated f, unread [] r)"
    using r(2) _ assms(2) by (rule Foo_Serialize_reading) (simp add: r(3))
  moreover have "openmode (file_m (unread [] r)) = In"
    using r(2) by (simp add: reading_def unread_def)
  ultimately show ?thesis
    using r(1) by (simp add: SerializeFromFile_def dtor_In)
qed

subsection \<open>The example object with the large vector\<close>

lemma big_vector_bytes:
  "(word_of_nat (length big_vector) :: u32) = 536870912"
  "(word_of_nat (length big_vector * size_of int_type) :: i32) = 2147483648"
  "sint (2147483648 :: i32) < 0"
  "unat (536870912 :: u32) = 536870912"
  by (simp_all add: length_big_vector int_type_def)

lemma SerializeToFile_big_Foo:
  assumes "writable fs p"
  shows "SerializeToFile Foo_Serialize big_Foo p fs =
         Inr (big_Foo, fs\<lparr>files := (files fs)(p \<mapsto> enc_big_Foo)\<rparr>)"
proof -
  obtain w where w: "FileArchive_ctor p Write fs = (w, fs\<lparr>files := (files fs)(p \<mapsto> [])\<rparr>)"
    "writing w" "put_area (file_m w) = []" "fname (file_m w) = p"
    using assms by (rule ctor_Write_writing)
  let ?w2 = "put (mem_of_u32 0 @ enc_string []) w"
  let ?w3 = "?w2\<lparr>file_m := (file_m ?w2)\<lparr>failed := True,
                put_area := put_area (file_m ?w2) @ mem_of_u32 536870912 @
                  mem_of_u32 2147483648\<rparr>\<rparr>"
  have 1: "op_int 0 w = (0, put (mem_of_u32 0) w)"
    using w(2) by (rule op_int_writing)
  have 2: "op_string [] (put (mem_of_u32 0) w) = Inr ([], ?w2)"
    using op_string_writing [of "put (mem_of_u32 0) w" "[]"] w(2) by simp
  have 3: "op_vector_basic int_type big_vector ?w2 = Inr (big_vector, ?w3)"
    using op_vector_basic_writing_negative [of ?w2 big_vector int_type] w(2)
    by (simp add: big_vector_bytes del: of_nat_mult)
  have 4: "op_vector op_string [] [] ?w3 = Inr ([], ?w3)"
    using w(2) by (intro op_vector_invalid) (simp_all add: IsStreamValid_def IsWrite_def writing_def put_def)
  have s: "Foo_Serialize big_Foo w = Inr (big_Foo, ?w3)"
    by (simp add: Foo_Serialize_def big_Foo_def Foo0_def 1 2 3 4)
  have d: "FileArchive_dtor ?w3 (fs\<lparr>files := (files fs)(p \<mapsto> [])\<rparr>) =
           fs\<lparr>files := (files fs)(p \<mapsto> enc_big_Foo)\<rparr>"
    using w(2,3,4)
    by (subst dtor_open_Out) (simp_all add: writing_def put_def enc_big_Foo_def big_vector_bytes)
  show ?thesis
    using w(1) s d by (simp add: SerializeToFile_def)
qed

lemma SerializeFromFile_big_Foo:
  assumes "files fs p = Some enc_big_Foo"
  shows "SerializeFromFile Foo_Serialize Foo0 p fs =
         Inr (\<lparr>integer = 0, str = [0], vector = replicate 536870912 0, vector_str = []\<rparr>, fs)"
proof -
  obtain r where r: "FileArchive_ctor p Read fs = (r, fs)" "reading r"
    "get_area (file_m r) = enc_big_Foo"
    using assms by (rule ctor_Read_reading)
  let ?r2 = "mem_of_u32 536870912 @ mem_of_u32 2147483648 @ []"
  let ?r1 = "enc_string [] @ ?r2"
  let ?a3 = "unread ?r2 r\<lparr>file_m := (file_m (unread ?r2 r))\<lparr>failed := True, get_area := []\<rparr>\<rparr>"
  have 1: "op_int 0 r = (0, unread ?r1 r)"
    using r(2,3) by (intro op_int_reading) (simp_all add: enc_big_Foo_def)
  have 2: "op_string [] (unread ?r1 r) = Inr ([] @ [0], unread ?r2 (unread ?r1 r))"
    using r(2) by (intro op_string_reading) simp_all
  have 3: "op_vector_basic int_type [] (unread ?r2 r) =
           Inr (resize (unat (536870912 :: u32)) (zero_of int_type) [], ?a3)"
    using r(2) BasicType_ok_int_type big_vector_bytes(3)
    by (intro op_vector_basic_reading_negative [where stored = 2147483648 and rest = "[]"])
       (simp_all add: int_type_def)
  have 4: "op_vector op_string [] [] ?a3 = Inr ([], ?a3)"
    using r(2)
    by (intro op_vector_invalid) (simp_all add: IsStreamValid_def IsWrite_def reading_def unread_def)
  have s: "Foo_Serialize Foo0 r =
           Inr (\<lparr>integer = 0, str = [0], vector = replicate 536870912 0, vector_str = []\<rparr>, ?a3)"
    using 1 2 3 4 by (simp add: Foo_Serialize_def Foo0_def resize_Nil int_type_def)
  have "openmode (file_m ?a3) = In"
    using r(2) by (simp add: reading_def unread_def)
  then have "FileArchive_dtor ?a3 fs = fs"
    by (rule dtor_In)
  then show ?thesis
    using r(1) s by (simp add: SerializeFromFile_def)
qed

subsection \<open>Scalars\<close>

text \<open>
  C1. An \<open>int\<close> or an \<open>unsigned int\<close> \<open>v\<close> written through a FileArchive in Write mode to a
  path that can be created, and read from that file through a FileArchive in Read mode
  into a variable holding any \<open>x\<close>, comes back as \<open>v\<close>, bit for bit.
\<close>

theorem scalar_round_trip:
  assumes "writable fs p"
  shows "(let (w, fs1) = FileArchive_ctor p Write fs;
              (v', w') = op_int v w;
              fs2 = FileArchive_dtor w' fs1;
              (r, fs3) = FileArchive_ctor p Read fs2
          in fst (op_int x r) = v)
       \<and> (let (w, fs1) = FileArchive_ctor p Write fs;
              (v', w') = op_uint v w;
              fs2 = FileArchive_dtor w' fs1;
              (r, fs3) = FileArchive_ctor p Read fs2
          in fst (op_uint x r) = v)"
  using assms
  by (simp add: ctor_Write ctor_Read op_int_def op_uint_def IsStreamValid_def IsWrite_def
      fstream_write_def fstream_read_def FileArchive_dtor_def FileArchive_dtor_body_def
      fstream_dtor_def)

theorem scalar_round_trip_witness:
  "writable fs0 ''hello.bin'' \<and>
   (let (w, fs1) = FileArchive_ctor ''hello.bin'' Write fs0;
        (v', w') = op_int (- 2) w;
        fs2 = FileArchive_dtor w' fs1;
        (r, fs3) = FileArchive_ctor ''hello.bin'' Read fs2
    in fst (op_int 0 r) = - 2) \<and>
   (let (w, fs1) = FileArchive_ctor ''hello.bin'' Write fs0;
        (v', w') = op_uint 4294967295 w;
        fs2 = FileArchive_dtor w' fs1;
        (r, fs3) = FileArchive_ctor ''hello.bin'' Read fs2
    in fst (op_uint 0 r) = 4294967295)"
proof -
  have h: "writable fs0 ''hello.bin''"
    by (simp add: fs0_def)
  have "let (w, fs1) = FileArchive_ctor ''hello.bin'' Write fs0;
            (v', w') = op_int (- 2) w;
            fs2 = FileArchive_dtor w' fs1;
            (r, fs3) = FileArchive_ctor ''hello.bin'' Read fs2
        in fst (op_int 0 r) = - 2"
    using scalar_round_trip [OF h, of "- 2" 0] by blast
  moreover have "let (w, fs1) = FileArchive_ctor ''hello.bin'' Write fs0;
            (v', w') = op_uint 4294967295 w;
            fs2 = FileArchive_dtor w' fs1;
            (r, fs3) = FileArchive_ctor ''hello.bin'' Read fs2
        in fst (op_uint 0 r) = 4294967295"
    using scalar_round_trip [OF h, of 4294967295 0] by blast
  ultimately show ?thesis using h by blast
qed

subsection \<open>Text\<close>

text \<open>
  C2. Writing the text "Hello" puts ten bytes into the file: the length field 6 in four
  bytes, the five characters and a zero byte. Reading that file into an empty string
  gives a string of length 6: the five characters and the zero byte as its last
  character.
\<close>

theorem text_Hello:
  "(let (w, fs1) = FileArchive_ctor ''hello.bin'' Write fs0 in
    case op_string (bytes_of ''Hello'') w of
      Inl e \<Rightarrow> False
    | Inr (s, w') \<Rightarrow>
        (let fs2 = FileArchive_dtor w' fs1;
             (r, fs3) = FileArchive_ctor ''hello.bin'' Read fs2
         in files fs2 ''hello.bin'' = Some ([6, 0, 0, 0] @ bytes_of ''Hello'' @ [0]) \<and>
            (case op_string [] r of
               Inl e \<Rightarrow> False
             | Inr (t, r') \<Rightarrow>
                 t = bytes_of ''Hello'' @ [0] \<and> length t = 6 \<and> last t = 0)))"
  by (simp add: fs0_def ctor_Write ctor_Read op_string_def IsStreamValid_def IsWrite_def
      fstream_write_def fstream_read_def FileArchive_dtor_def FileArchive_dtor_body_def
      fstream_dtor_def bytes_of_def mem_of_u32_def resize_def)

subsection \<open>Destruction\<close>

text \<open>
  C5. Destroying a FileArchive does to the file what one call of \<open>close()\<close> on its stream
  does, for every archive and whatever the validity of the stream. The close happens
  once: on a valid stream the body of the destructor calls no \<open>close()\<close> and the
  destructor of the member \<open>file_\<close> closes the file; on a stream that is not valid the
  body calls \<open>close()\<close> once, no file is open afterwards, and the destructor of the member
  finds nothing to close.
\<close>

theorem destruction_closes_once:
  "FileArchive_dtor ar fs = snd (fstream_close (file_m ar) fs) \<and>
   (let (ar', fs') = FileArchive_dtor_body ar fs
    in if IsStreamValid ar
       then close_calls (file_m ar') = close_calls (file_m ar) \<and> fs' = fs \<and>
            FileArchive_dtor ar fs = fstream_dtor (file_m ar) fs
       else close_calls (file_m ar') = close_calls (file_m ar) + 1 \<and>
            \<not> is_open (file_m ar') \<and> fs' = snd (fstream_close (file_m ar) fs) \<and>
            fstream_dtor (file_m ar') fs' = fs')"
  by (simp add: FileArchive_dtor_def FileArchive_dtor_body_def fstream_close_def
      fstream_dtor_def)

theorem destruction_closes_once_witness:
  "(let (w, fs1) = FileArchive_ctor ''hello.bin'' Write fs0;
        (v, w') = op_int 2 w
    in IsStreamValid w' \<and> is_open (file_m w') \<and>
       FileArchive_dtor w' fs1 = snd (fstream_close (file_m w') fs1) \<and>
       files (FileArchive_dtor w' fs1) ''hello.bin'' = Some [2, 0, 0, 0]) \<and>
   (let (r, fs1) = FileArchive_ctor ''missing.bin'' Read fs0
    in \<not> IsStreamValid r \<and> \<not> is_open (file_m r) \<and>
       FileArchive_dtor r fs1 = snd (fstream_close (file_m r) fs1) \<and>
       FileArchive_dtor r fs1 = fs0)"
proof -
  obtain w fs1 where c: "FileArchive_ctor ''hello.bin'' Write fs0 = (w, fs1)"
    by (cases "FileArchive_ctor ''hello.bin'' Write fs0")
  obtain v w' where o: "op_int 2 w = (v, w')"
    by (cases "op_int 2 w")
  obtain r fs2 where d: "FileArchive_ctor ''missing.bin'' Read fs0 = (r, fs2)"
    by (cases "FileArchive_ctor ''missing.bin'' Read fs0")
  have 1: "FileArchive_dtor w' fs1 = snd (fstream_close (file_m w') fs1)"
    using destruction_closes_once [of w' fs1] by blast
  have 2: "FileArchive_dtor r fs2 = snd (fstream_close (file_m r) fs2)"
    using destruction_closes_once [of r fs2] by blast
  have 3: "IsStreamValid w'" "is_open (file_m w')"
    "snd (fstream_close (file_m w') fs1) = fs0\<lparr>files := [''hello.bin'' \<mapsto> [2, 0, 0, 0]]\<rparr>"
    using c o
    by (auto simp: fs0_def ctor_Write op_int_def IsStreamValid_def IsWrite_def fstream_write_def
        fstream_close_def mem_of_u32_def)
  have 4: "\<not> IsStreamValid r" "\<not> is_open (file_m r)" "snd (fstream_close (file_m r) fs2) = fs0"
    using d
    by (auto simp: fs0_def FileArchive_ctor_def fstream_open_def IsStreamValid_def
        fstream_close_def)
  show ?thesis
    using c o d 1 2 3 4 by simp
qed


subsection \<open>A stream that failed to open\<close>

text \<open>
  C6. When the stream of a newly constructed FileArchive is not valid, the operations on
  \<open>int\<close>, \<open>unsigned int\<close>, text and raw buffers give back the caller's value and the archive
  as they were and report nothing; so every later operation meets the same archive.
  The file system is what it was before the construction, also after destruction.
\<close>

theorem invalid_stream_noop:
  assumes "\<not> IsStreamValid (fst (FileArchive_ctor p m fs))"
  shows "(let (ar, fs') = FileArchive_ctor p m fs
          in op_int i ar = (i, ar) \<and> op_uint u ar = (u, ar) \<and>
             op_string s ar = Inr (s, ar) \<and> SerializeBuffer d n ar = Inr (d, ar) \<and>
             fs' = fs \<and> FileArchive_dtor ar fs' = fs)"
proof -
  obtain ar fs' where c: "FileArchive_ctor p m fs = (ar, fs')"
    by (cases "FileArchive_ctor p m fs")
  with assms have v: "\<not> IsStreamValid ar"
    by simp
  have "fs' = fs" "\<not> is_open (file_m ar)"
    using ctor_invalid [OF c v] by simp_all
  then show ?thesis
    using v c
    by (simp add: op_int_def op_uint_def op_string_def SerializeBuffer_def
        FileArchive_dtor_def FileArchive_dtor_body_def fstream_close_def fstream_dtor_def)
qed

theorem invalid_stream_noop_witness:
  "\<not> IsStreamValid (fst (FileArchive_ctor ''missing.bin'' Read fs0)) \<and>
   (let (ar, fs') = FileArchive_ctor ''missing.bin'' Read fs0
    in op_int 7 ar = (7, ar) \<and> op_uint 7 ar = (7, ar) \<and>
       op_string (bytes_of ''abc'') ar = Inr (bytes_of ''abc'', ar) \<and>
       SerializeBuffer [1, 2, 3, 4] 4 ar = Inr ([1, 2, 3, 4], ar) \<and>
       fs' = fs0 \<and> FileArchive_dtor ar fs' = fs0)"
proof -
  have h: "\<not> IsStreamValid (fst (FileArchive_ctor ''missing.bin'' Read fs0))"
    by (simp add: FileArchive_ctor_def fstream_open_def fs0_def IsStreamValid_def)
  from invalid_stream_noop [OF h, of 7 7 "bytes_of ''abc''" "[1, 2, 3, 4]" 4] h
  show ?thesis by blast
qed

subsection \<open>The byte count of a buffer\<close>




subsection \<open>Vectors of basic types\<close>

text \<open>
  C3 (amended). A vector of a basic type whose payload, element count times element
  size, is below \<open>2^31\<close> bytes (what the \<open>int\<close> parameter of \<open>SerializeBuffer\<close> can hold),
  written to a path that can be created and read from that file into a vector of any
  previous content, comes back with the same length and the same elements in the same
  order.
\<close>

theorem vector_basic_round_trip:
  assumes "BasicType_ok T" and "writable fs p" and "length val * size_of T < 2 ^ 31"
  shows "(let (w, fs1) = FileArchive_ctor p Write fs in
          case op_vector_basic T val w of
            Inl e \<Rightarrow> False
          | Inr (v', w') \<Rightarrow>
              (let fs2 = FileArchive_dtor w' fs1;
                   (r, fs3) = FileArchive_ctor p Read fs2
               in case op_vector_basic T old r of
                    Inl e \<Rightarrow> False
                  | Inr (v'', r') \<Rightarrow> v'' = val \<and> length v'' = length val))"
proof -
  have m: "\<forall>x. length (mem_of T x) = size_of T"
    using assms(1) by (simp add: BasicType_ok_def)
  obtain w where w: "FileArchive_ctor p Write fs = (w, fs\<lparr>files := (files fs)(p \<mapsto> [])\<rparr>)"
    "writing w" "put_area (file_m w) = []" "fname (file_m w) = p"
    using assms(2) by (rule ctor_Write_writing)
  let ?fs2 = "FileArchive_dtor (put (enc_vector_basic T val) w) (fs\<lparr>files := (files fs)(p \<mapsto> [])\<rparr>)"
  have f: "files ?fs2 p = Some (enc_vector_basic T val)"
    using w by (simp add: dtor_put)
  obtain r where r: "FileArchive_ctor p Read ?fs2 = (r, ?fs2)" "reading r"
    "get_area (file_m r) = enc_vector_basic T val"
    using f by (rule ctor_Read_reading)
  have "op_vector_basic T old r = Inr (val, unread [] r)"
    using r(2) _ assms(3,1) by (rule op_vector_basic_reading) (simp add: r(3))
  then show ?thesis
    using w(1) r(1) op_vector_basic_writing [OF w(2) assms(3) m] by simp
qed

theorem vector_basic_round_trip_witness:
  "BasicType_ok int_type \<and> writable fs0 ''v.bin'' \<and>
   length [1, 2, 3 :: i32] * size_of int_type < 2 ^ 31 \<and>
   (let (w, fs1) = FileArchive_ctor ''v.bin'' Write fs0 in
    case op_vector_basic int_type [1, 2, 3] w of
      Inl e \<Rightarrow> False
    | Inr (v', w') \<Rightarrow>
        (let fs2 = FileArchive_dtor w' fs1;
             (r, fs3) = FileArchive_ctor ''v.bin'' Read fs2
         in case op_vector_basic int_type [] r of
              Inl e \<Rightarrow> False
            | Inr (v'', r') \<Rightarrow> v'' = [1, 2, 3] \<and> length v'' = length [1, 2, 3 :: i32]))"
proof -
  have h: "BasicType_ok int_type" "writable fs0 ''v.bin''"
    "length [1, 2, 3 :: i32] * size_of int_type < 2 ^ 31"
    using BasicType_ok_int_type by (simp_all add: fs0_def int_type_def)
  from vector_basic_round_trip [OF h, of "[]"] h show ?thesis by blast
qed


text \<open>
  C3 as stated, for every vector, fails for the vector of \<open>2^29\<close> \<open>int\<close>s equal
  to 1: its byte count \<open>2^31\<close> becomes a negative \<open>int\<close>, no element is written, and the
  read gives \<open>2^29\<close> zeros.
\<close>

theorem vector_basic_round_trip_counterexample:
  "\<not> (let (w, fs1) = FileArchive_ctor ''v.bin'' Write fs0 in
       case op_vector_basic int_type big_vector w of
         Inl e \<Rightarrow> False
       | Inr (v', w') \<Rightarrow>
           (let fs2 = FileArchive_dtor w' fs1;
                (r, fs3) = FileArchive_ctor ''v.bin'' Read fs2
            in case op_vector_basic int_type [] r of
                 Inl e \<Rightarrow> False
               | Inr (v'', r') \<Rightarrow> v'' = big_vector \<and> length v'' = length big_vector))"
proof -
  let ?p = "''v.bin''"
  let ?fs1 = "fs0\<lparr>files := (files fs0)(?p \<mapsto> [])\<rparr>"
  have "writable fs0 ?p" by (simp add: fs0_def)
  then obtain w where w: "FileArchive_ctor ?p Write fs0 = (w, ?fs1)"
    "writing w" "put_area (file_m w) = []" "fname (file_m w) = ?p"
    by (rule ctor_Write_writing)
  let ?cnt = "536870912 :: u32"
  let ?stored = "2147483648 :: i32"
  have neg: "nat (sint ?stored) = 0" by simp
  have cnt: "unat ?cnt = 536870912" by simp
  obtain w' where w': "op_vector_basic int_type big_vector w = Inr (big_vector, w')"
    "is_open (file_m w')" "openmode (file_m w') = Out" "fname (file_m w') = ?p"
    "put_area (file_m w') = mem_of_u32 ?cnt @ mem_of_u32 ?stored"
    using op_vector_basic_writing_any [OF w(2), of int_type big_vector] w(3,4)
    by (auto simp: length_big_vector int_type_def)
  let ?fs2 = "FileArchive_dtor w' ?fs1"
  have f: "files ?fs2 ?p = Some (mem_of_u32 ?cnt @ mem_of_u32 ?stored @ [])"
    using w' by (simp add: dtor_open_Out)
  obtain r where r: "FileArchive_ctor ?p Read ?fs2 = (r, ?fs2)" "reading r"
    "get_area (file_m r) = mem_of_u32 ?cnt @ mem_of_u32 ?stored @ []"
    using f by (rule ctor_Read_reading)
  have s: "?stored = word_of_nat (unat ?cnt * size_of int_type)"
    by (simp add: int_type_def)
  have z: "vector_of_data int_type 536870912 (vector_data int_type (replicate 536870912 0))
           = replicate 536870912 0"
    using vector_of_data_vector_data [OF BasicType_ok_int_type, of "replicate 536870912 0" "[]"]
    by simp
  obtain r' where r': "op_vector_basic int_type [] r = Inr (replicate 536870912 0, r')"
    using op_vector_basic_reading_any [OF r(2,3) s, of "[]"] z
    by (auto simp: resize_Nil int_type_def)
  have "replicate 536870912 (0 :: i32) \<noteq> big_vector"
    by (simp add: big_vector_def)
  then show ?thesis
    using w(1) w'(1) r(1) r' by simp
qed


text \<open>
  C10. A vector of a basic type, of any length, is written to a path that can be
  created. The file then starts with an element count and a byte count, and the byte
  count is the one the read computes from the element count. Reading a vector of that
  type from the file, into a vector of any previous content, returns: the assertion
  of \<open>SerializeBuffer\<close> does not fail.
\<close>

theorem written_vector_passes_check:
  assumes "writable fs p"
  shows "(let (w, fs1) = FileArchive_ctor p Write fs in
          case op_vector_basic T val w of
            Inl e \<Rightarrow> False
          | Inr (v', w') \<Rightarrow>
              (let fs2 = FileArchive_dtor w' fs1;
                   (r, fs3) = FileArchive_ctor p Read fs2
               in (\<exists>cnt stored payload.
                     files fs2 p = Some (mem_of_u32 cnt @ mem_of_u32 stored @ payload) \<and>
                     stored = word_of_nat (unat cnt * size_of T)) \<and>
                  (\<exists>v r'. op_vector_basic T old r = Inr (v, r'))))"
proof -
  obtain w where w: "FileArchive_ctor p Write fs = (w, fs\<lparr>files := (files fs)(p \<mapsto> [])\<rparr>)"
    "writing w" "put_area (file_m w) = []" "fname (file_m w) = p"
    using assms by (rule ctor_Write_writing)
  let ?cnt = "word_of_nat (length val) :: u32"
  let ?stored = "word_of_nat (length val * size_of T) :: i32"
  let ?payload = "take (nat (sint ?stored)) (vector_data T val)"
  obtain w' where w': "op_vector_basic T val w = Inr (val, w')"
    "is_open (file_m w')" "openmode (file_m w') = Out" "fname (file_m w') = p"
    "put_area (file_m w') = mem_of_u32 ?cnt @ mem_of_u32 ?stored @ ?payload"
    using op_vector_basic_writing_any [OF w(2), of T val] w(3,4) by auto
  let ?fs2 = "FileArchive_dtor w' (fs\<lparr>files := (files fs)(p \<mapsto> [])\<rparr>)"
  have f: "files ?fs2 p = Some (mem_of_u32 ?cnt @ mem_of_u32 ?stored @ ?payload)"
    using w' by (simp add: dtor_open_Out)
  have s: "?stored = word_of_nat (unat ?cnt * size_of T)"
    by (simp only: word_of_nat_unat_mult)
  obtain r where r: "FileArchive_ctor p Read ?fs2 = (r, ?fs2)" "reading r"
    "get_area (file_m r) = mem_of_u32 ?cnt @ mem_of_u32 ?stored @ ?payload"
    using f by (rule ctor_Read_reading)
  have "\<exists>v r'. op_vector_basic T old r = Inr (v, r')"
    using op_vector_basic_reading_any [OF r(2,3) s, of old] by blast
  then show ?thesis
    using w(1) w'(1) r(1) f s by (simp del: of_nat_mult) blast
qed



theorem written_vector_passes_check_witness:
  "writable fs0 ''v.bin'' \<and>
   (let (w, fs1) = FileArchive_ctor ''v.bin'' Write fs0 in
    case op_vector_basic int_type [1, 2, 3] w of
      Inl e \<Rightarrow> False
    | Inr (v', w') \<Rightarrow>
        (let fs2 = FileArchive_dtor w' fs1;
             (r, fs3) = FileArchive_ctor ''v.bin'' Read fs2
         in (\<exists>cnt stored payload.
               files fs2 ''v.bin'' = Some (mem_of_u32 cnt @ mem_of_u32 stored @ payload) \<and>
               stored = word_of_nat (unat cnt * size_of int_type)) \<and>
            (\<exists>v r'. op_vector_basic int_type [] r = Inr (v, r'))))"
proof -
  have h: "writable fs0 ''v.bin''"
    by (simp add: fs0_def)
  from written_vector_passes_check [OF h, where T = int_type and val = "[1, 2, 3]" and old = "[]"] h
  show ?thesis by blast
qed


subsection \<open>Vectors of other types\<close>

text \<open>
  C4 (amended). For a vector of fewer than \<open>2^31\<close> elements, the operation in Write mode
  writes the element count and then serializes each element on its own, in index
  order, through the same archive. In Read mode it reads the count and, when the count
  read is below \<open>2^31\<close>, resizes the vector to the count and deserializes each element
  on its own in index order.
\<close>

theorem vector_composite_in_index_order:
  "(IsWrite ar \<longrightarrow> length val < 2 ^ 31 \<longrightarrow>
      op_vector elem dflt val ar =
      (let (sz', ar1) = op_uint (word_of_nat (length val)) ar in serialize_each elem val ar1)) \<and>
   (\<not> IsWrite ar \<longrightarrow>
      (let (sz, ar1) = op_uint 0 ar
       in unat sz < 2 ^ 31 \<longrightarrow>
          op_vector elem dflt val ar = serialize_each elem (resize (unat sz) dflt val) ar1))"
proof (intro conjI impI)
  assume w: "IsWrite ar" and l: "length val < 2 ^ 31"
  obtain sz' ar1 where c: "op_uint (word_of_nat (length val)) ar = (sz', ar1)"
    by (cases "op_uint (word_of_nat (length val) :: u32) ar")
  with op_uint_Write [OF w, of "word_of_nat (length val)"]
  have "sz' = word_of_nat (length val)" by simp
  then have "unat sz' = length val"
    using l by (simp add: unat_word_of_nat)
  then have "vector_loop elem sz' 0 val ar1 = serialize_each elem val ar1"
    using l by (rule vector_loop_whole)
  then show "op_vector elem dflt val ar =
      (let (sz', ar1) = op_uint (word_of_nat (length val)) ar in serialize_each elem val ar1)"
    using w c by (simp add: op_vector_def)
next
  assume w: "\<not> IsWrite ar"
  obtain sz ar1 where c: "op_uint 0 ar = (sz, ar1)"
    by (cases "op_uint 0 ar")
  have "op_vector elem dflt val ar = serialize_each elem (resize (unat sz) dflt val) ar1"
    if "unat sz < 2 ^ 31"
  proof -
    have "vector_loop elem sz 0 (resize (unat sz) dflt val) ar1 =
          serialize_each elem (resize (unat sz) dflt val) ar1"
      using that by (intro vector_loop_whole) simp_all
    then show ?thesis using w c by (simp add: op_vector_def)
  qed
  then show "let (sz, ar1) = op_uint 0 ar
       in unat sz < 2 ^ 31 \<longrightarrow>
          op_vector elem dflt val ar = serialize_each elem (resize (unat sz) dflt val) ar1"
    using c by simp
qed

theorem vector_composite_in_index_order_witness:
  "(let w = fst (FileArchive_ctor ''v.bin'' Write fs0);
        val = [bytes_of ''a'', bytes_of ''Hello'']
    in IsWrite w \<and> length val < 2 ^ 31 \<and>
       op_vector op_string [] val w =
       serialize_each op_string val (snd (op_uint (word_of_nat (length val)) w))) \<and>
   (let r = fst (FileArchive_ctor ''v.bin'' Read
                  (fs0\<lparr>files := [''v.bin'' \<mapsto>
                     enc_vector enc_string [bytes_of ''a'', bytes_of ''Hello'']]\<rparr>))
    in \<not> IsWrite r \<and> unat (fst (op_uint 0 r)) < 2 ^ 31 \<and>
       op_vector op_string [] [] r =
       serialize_each op_string (resize (unat (fst (op_uint 0 r))) [] []) (snd (op_uint 0 r)))"
proof -
  define w where "w = fst (FileArchive_ctor ''v.bin'' Write fs0)"
  define val where "val = [bytes_of ''a'', bytes_of ''Hello'']"
  define r where "r = fst (FileArchive_ctor ''v.bin'' Read
                  (fs0\<lparr>files := [''v.bin'' \<mapsto>
                     enc_vector enc_string [bytes_of ''a'', bytes_of ''Hello'']]\<rparr>))"
  have hw: "IsWrite w" "length val < 2 ^ 31"
    by (simp_all add: w_def val_def ctor_Write fs0_def IsWrite_def)
  have hr: "\<not> IsWrite r" "unat (fst (op_uint 0 r)) < 2 ^ 31"
    by (simp_all add: r_def ctor_Read IsWrite_def op_uint_def IsStreamValid_def fstream_read_def
        enc_vector_def mem_of_u32_def)
  have "op_vector op_string [] val w =
        serialize_each op_string val (snd (op_uint (word_of_nat (length val)) w))"
    using vector_composite_in_index_order [of w val op_string "[]"] hw
    by (simp add: case_prod_unfold)
  moreover have "op_vector op_string [] [] r =
       serialize_each op_string (resize (unat (fst (op_uint 0 r))) [] []) (snd (op_uint 0 r))"
    using vector_composite_in_index_order [of r "[]" op_string "[]"] hr
    by (simp add: case_prod_unfold Let_def)
  ultimately show ?thesis
    using hw hr unfolding Let_def w_def val_def r_def by blast
qed


text \<open>
  C4 as stated, for every vector, fails in Write mode for the vector of
  \<open>2^32\<close> empty strings: \<open>unsigned int size = val.size()\<close> is 0, the count 0 is written and
  no element is serialized.
\<close>

theorem vector_composite_in_index_order_counterexample:
  "\<not> (let w = fst (FileArchive_ctor ''v.bin'' Write fs0)
      in op_vector op_string [] many_strings w =
         (let (sz', ar1) = op_uint (word_of_nat (length many_strings)) w
          in serialize_each op_string many_strings ar1))"
proof -
  have "writable fs0 ''v.bin''" by (simp add: fs0_def)
  then obtain w where w: "FileArchive_ctor ''v.bin'' Write fs0 =
      (w, fs0\<lparr>files := (files fs0)(''v.bin'' \<mapsto> [])\<rparr>)" "writing w"
    by (rule ctor_Write_writing)
  let ?ar1 = "put (mem_of_u32 0) w"
  have iw: "IsWrite w" using w(2) by (simp add: writing_def IsWrite_def)
  have z: "(word_of_nat (length many_strings) :: u32) = 0"
    by (simp add: length_many_strings)
  have c: "op_uint 0 w = (0, ?ar1)"
    using w(2) by (rule op_uint_writing)
  have l: "op_vector op_string [] many_strings w = Inr (many_strings, ?ar1)"
    using iw z c by (simp add: op_vector_def vector_loop.simps)
  have s: "\<forall>s\<in>set many_strings. length s + 1 < 2 ^ 31"
    by (simp add: many_strings_def)
  have e: "serialize_each op_string many_strings ?ar1 =
           Inr (many_strings, put (concat (map enc_string many_strings)) ?ar1)"
    using _ s by (rule serialize_each_op_string_writing) (simp add: w(2))
  have "many_strings \<noteq> []"
    using length_many_strings by auto
  then have "concat (map enc_string many_strings) \<noteq> []"
    by (cases many_strings) (simp_all add: enc_string_def)
  then have "put (concat (map enc_string many_strings)) ?ar1 \<noteq> ?ar1"
    using put_eq_self by blast
  then show ?thesis
    using w(1) l e z c by (simp del: put_put)
qed


subsection \<open>One object, two files\<close>

text \<open>
  C9 (amended). A \<open>Foo\<close> whose sizes fit the format (each text shorter than \<open>2^31 - 1\<close>
  characters, the \<open>int\<close> vector below \<open>2^31\<close> bytes, fewer than \<open>2^31\<close> texts) is serialized
  with \<open>SerializeToFile\<close> to two different paths that can be created, and each file is
  deserialized with \<open>SerializeFromFile\<close> into an object of any previous content. The two
  objects read are equal to each other and to the original with the terminator byte
  appended to every text field; the original is unchanged by the writes.
\<close>

theorem two_files_round_trip:
  assumes "Foo_fits f" and "writable fs p1" and "writable fs p2" and "p1 \<noteq> p2"
  shows "(case SerializeToFile Foo_Serialize f p1 fs of
            Inl e \<Rightarrow> False
          | Inr (f1, fs1) \<Rightarrow>
              (case SerializeToFile Foo_Serialize f1 p2 fs1 of
                 Inl e \<Rightarrow> False
               | Inr (f2, fs2) \<Rightarrow>
                   (case SerializeFromFile Foo_Serialize g1 p1 fs2 of
                      Inl e \<Rightarrow> False
                    | Inr (a, fs3) \<Rightarrow>
                        (case SerializeFromFile Foo_Serialize g2 p2 fs3 of
                           Inl e \<Rightarrow> False
                         | Inr (b, fs4) \<Rightarrow>
                             f1 = f \<and> f2 = f \<and> a = b \<and> a = terminated f))))"
proof -
  let ?fs1 = "fs\<lparr>files := (files fs)(p1 \<mapsto> enc_Foo f)\<rparr>"
  let ?fs2 = "?fs1\<lparr>files := (files ?fs1)(p2 \<mapsto> enc_Foo f)\<rparr>"
  have 1: "SerializeToFile Foo_Serialize f p1 fs = Inr (f, ?fs1)"
    using assms(2,1) by (rule SerializeToFile_Foo)
  have 2: "SerializeToFile Foo_Serialize f p2 ?fs1 = Inr (f, ?fs2)"
    using _ assms(1) by (rule SerializeToFile_Foo) (simp add: assms(3))
  have 3: "SerializeFromFile Foo_Serialize g1 p1 ?fs2 = Inr (terminated f, ?fs2)"
    using _ assms(1) by (rule SerializeFromFile_Foo) (simp add: assms(4))
  have 4: "SerializeFromFile Foo_Serialize g2 p2 ?fs2 = Inr (terminated f, ?fs2)"
    using _ assms(1) by (rule SerializeFromFile_Foo) simp
  show ?thesis
    by (simp only: 1 2 3 4 sum.case prod.case simp_thms)
qed


theorem two_files_round_trip_witness:
  "Foo_fits main_Foo \<and> writable fs0 ''hello.bin'' \<and> writable fs0 ''hello2.bin'' \<and>
   ''hello.bin'' \<noteq> ''hello2.bin'' \<and>
   (case SerializeToFile Foo_Serialize main_Foo ''hello.bin'' fs0 of
      Inl e \<Rightarrow> False
    | Inr (f1, fs1) \<Rightarrow>
        (case SerializeToFile Foo_Serialize f1 ''hello2.bin'' fs1 of
           Inl e \<Rightarrow> False
         | Inr (f2, fs2) \<Rightarrow>
             (case SerializeFromFile Foo_Serialize Foo0 ''hello.bin'' fs2 of
                Inl e \<Rightarrow> False
              | Inr (a, fs3) \<Rightarrow>
                  (case SerializeFromFile Foo_Serialize Foo0 ''hello2.bin'' fs3 of
                     Inl e \<Rightarrow> False
                   | Inr (b, fs4) \<Rightarrow>
                       f1 = main_Foo \<and> f2 = main_Foo \<and> a = b \<and> a = terminated main_Foo))))"
proof -
  have h: "Foo_fits main_Foo" "writable fs0 ''hello.bin''" "writable fs0 ''hello2.bin''"
    "''hello.bin'' \<noteq> ''hello2.bin''"
    by (simp_all add: Foo_fits_def main_Foo_def bytes_of_def fs0_def)
  from two_files_round_trip [OF h, of Foo0 Foo0] h show ?thesis by blast
qed


text \<open>
  C9 as stated, for every object, fails for the \<open>Foo\<close> holding the vector of
  \<open>2^29\<close> \<open>int\<close>s: both files lack the elements, and both reads give \<open>2^29\<close> zeros.
\<close>

theorem two_files_round_trip_counterexample:
  "\<not> (case SerializeToFile Foo_Serialize big_Foo ''hello.bin'' fs0 of
         Inl e \<Rightarrow> False
       | Inr (f1, fs1) \<Rightarrow>
           (case SerializeToFile Foo_Serialize f1 ''hello2.bin'' fs1 of
              Inl e \<Rightarrow> False
            | Inr (f2, fs2) \<Rightarrow>
                (case SerializeFromFile Foo_Serialize Foo0 ''hello.bin'' fs2 of
                   Inl e \<Rightarrow> False
                 | Inr (a, fs3) \<Rightarrow>
                     (case SerializeFromFile Foo_Serialize Foo0 ''hello2.bin'' fs3 of
                        Inl e \<Rightarrow> False
                      | Inr (b, fs4) \<Rightarrow>
                          f1 = big_Foo \<and> f2 = big_Foo \<and> a = b \<and> a = terminated big_Foo))))"
proof -
  let ?fs1 = "fs0\<lparr>files := (files fs0)(''hello.bin'' \<mapsto> enc_big_Foo)\<rparr>"
  let ?fs2 = "?fs1\<lparr>files := (files ?fs1)(''hello2.bin'' \<mapsto> enc_big_Foo)\<rparr>"
  let ?a = "\<lparr>integer = 0, str = [0], vector = replicate 536870912 0, vector_str = []\<rparr>"
  have 1: "SerializeToFile Foo_Serialize big_Foo ''hello.bin'' fs0 = Inr (big_Foo, ?fs1)"
    by (rule SerializeToFile_big_Foo) (simp add: fs0_def)
  have 2: "SerializeToFile Foo_Serialize big_Foo ''hello2.bin'' ?fs1 = Inr (big_Foo, ?fs2)"
    by (rule SerializeToFile_big_Foo) (simp add: fs0_def)
  have 3: "SerializeFromFile Foo_Serialize Foo0 ''hello.bin'' ?fs2 = Inr (?a, ?fs2)"
    by (rule SerializeFromFile_big_Foo) simp
  have 4: "SerializeFromFile Foo_Serialize Foo0 ''hello2.bin'' ?fs2 = Inr (?a, ?fs2)"
    by (rule SerializeFromFile_big_Foo) simp
  have "vector ?a \<noteq> vector (terminated big_Foo)"
    by (simp add: terminated_def big_Foo_def big_vector_def)
  then have "?a \<noteq> terminated big_Foo"
    by (metis Foo.select_convs(3))
  then show ?thesis
    by (simp only: 1 2 3 4 sum.case prod.case simp_thms not_False_eq_True)
qed


end
